theory Spec2Isabelle
  imports Complex_Main
begin

section \<open>Roltrap: an escalator occupancy controller\<close>

text \<open>
  The program (\<^verbatim>\<open>Roltrap-v1.py\<close>) has three parts: \<^verbatim>\<open>ThreadedLoop\<close> reads an
  ultrasonic sensor, \<^verbatim>\<open>BasicEscalator\<close> keeps the occupancy count, and
  \<^verbatim>\<open>SimpleDecrease\<close> resets that count periodically; \<^verbatim>\<open>mainLoop\<close> feeds the
  measurements into the escalator object.

  Modelling decisions.
  \<^item> A finite Python \<^verbatim>\<open>float\<close> is a \<^typ>\<open>real\<close>, and float arithmetic is
    binary64 arithmetic: the exact result rounded to the nearest double, ties to even,
    with overflow to an infinity (\<open>fl64\<close>, \<open>to_float64\<close>). Comparisons of floats, and
    of a float with an integer, are exact. The measurements given to
    \<^verbatim>\<open>BasicEscalator\<close> are finite floats.
  \<^item> The threads are modelled as atomic steps on the escalator object, taken in any
    order; the unsynchronised interleaving inside a step is outside the model.
  \<^item> Every \<^verbatim>\<open>raise\<close> is a value \<open>Inl e\<close> of a sum type.
\<close>

subsection \<open>Constants\<close>

definition SPEEDOFSOUND :: real where
  "SPEEDOFSOUND = 34300"

definition DEVIATION :: real where
  "DEVIATION = 2"

definition TRAVELTIME :: nat where
  "TRAVELTIME = 15"

subsection \<open>Binary64 arithmetic\<close>

text \<open>
  Rounding a real to the nearest integer, ties to the even one.
\<close>

definition round_half_even :: "real \<Rightarrow> int" where
  "round_half_even x =
     (let f = \<lfloor>x\<rfloor>; r = x - of_int f
      in if r < 1 / 2 then f else if 1 / 2 < r then f + 1 else if even f then f else f + 1)"

text \<open>
  The binade of \<open>x\<close>: the exponent \<open>e\<close> with \<open>2\<^sup>e \<le> \<bar>x\<bar> < 2\<^sup>e\<^sup>+\<^sup>1\<close>, but never below
  \<open>-1022\<close>, the exponent of the subnormal numbers. It is found by halving or doubling.
\<close>

function exponent_up :: "real \<Rightarrow> int \<Rightarrow> int" where
  "exponent_up x e = (if 2 \<le> x then exponent_up (x / 2) (e + 1) else e)"
  by pat_completeness auto
termination
proof (relation "measure (\<lambda>(x, e). nat \<lceil>x\<rceil>)")
  show "wf (measure (\<lambda>(x, e). nat \<lceil>x\<rceil>))" by simp
next
  fix x :: real and e :: int
  assume "2 \<le> x"
  then have "x / 2 \<le> x - 1" by simp
  then have "\<lceil>x / 2\<rceil> \<le> \<lceil>x - 1\<rceil>" by (rule ceiling_mono)
  moreover from \<open>2 \<le> x\<close> have "0 < \<lceil>x\<rceil>" by linarith
  ultimately show "((x / 2, e + 1), (x, e)) \<in> measure (\<lambda>(x, e). nat \<lceil>x\<rceil>)"
    by simp
qed

function exponent_down :: "real \<Rightarrow> int \<Rightarrow> int" where
  "exponent_down x e =
     (if x < 1 \<and> - 1022 < e then exponent_down (2 * x) (e - 1) else e)"
  by pat_completeness auto
termination
  by (relation "measure (\<lambda>(x, e). nat (e + 1022))") auto

declare exponent_up.simps [simp del] exponent_down.simps [simp del]

definition binade :: "real \<Rightarrow> int" where
  "binade x = (if 1 \<le> \<bar>x\<bar> then exponent_up \<bar>x\<bar> 0 else exponent_down \<bar>x\<bar> 0)"

text \<open>
  A double has 53 significant bits, so the doubles of the binade \<open>e\<close> are the multiples
  of \<open>2\<^sup>e\<^sup>-\<^sup>5\<^sup>2\<close>. \<open>fl64 x\<close> is \<open>x\<close> rounded to the nearest of them, ties to the one
  with an even significand, with no bound on the exponent from above.
\<close>

definition ulp :: "real \<Rightarrow> real" where
  "ulp x = 2 powi (binade x - 52)"

definition fl64 :: "real \<Rightarrow> real" where
  "fl64 x = sgn x * (of_int (round_half_even (\<bar>x\<bar> / ulp x)) * ulp x)"

definition is_binary64 :: "real \<Rightarrow> bool" where
  "is_binary64 x \<longleftrightarrow> fl64 x = x \<and> \<bar>x\<bar> < 2 ^ 1024"

text \<open>
  The values of a Python \<^verbatim>\<open>float\<close>, and the result of an operation: a rounded
  value of magnitude \<open>2\<^sup>1\<^sup>0\<^sup>2\<^sup>4\<close> or more is an infinity.
\<close>

datatype float64 = Num real | PosInf | NegInf | NaN

definition to_float64 :: "real \<Rightarrow> float64" where
  "to_float64 x =
     (let r = fl64 x
      in if 2 ^ 1024 \<le> r then PosInf else if r \<le> - (2 ^ 1024) then NegInf else Num r)"

text \<open>
  Subtraction of two finite floats, multiplication, \<^verbatim>\<open>abs\<close>, and the comparison
  \<^verbatim>\<open>>=\<close> of a float with a number.
\<close>

definition float_sub :: "real \<Rightarrow> real \<Rightarrow> float64" where
  "float_sub a b = to_float64 (a - b)"

fun float_mul :: "float64 \<Rightarrow> float64 \<Rightarrow> float64" where
  "float_mul (Num a) (Num b) = to_float64 (a * b)"
| "float_mul (Num a) PosInf = (if a = 0 then NaN else if 0 < a then PosInf else NegInf)"
| "float_mul (Num a) NegInf = (if a = 0 then NaN else if 0 < a then NegInf else PosInf)"
| "float_mul PosInf (Num b) = (if b = 0 then NaN else if 0 < b then PosInf else NegInf)"
| "float_mul NegInf (Num b) = (if b = 0 then NaN else if 0 < b then NegInf else PosInf)"
| "float_mul PosInf PosInf = PosInf"
| "float_mul PosInf NegInf = NegInf"
| "float_mul NegInf PosInf = NegInf"
| "float_mul NegInf NegInf = PosInf"
| "float_mul NaN y = NaN"
| "float_mul x NaN = NaN"

fun float_abs :: "float64 \<Rightarrow> float64" where
  "float_abs (Num a) = Num \<bar>a\<bar>"
| "float_abs PosInf = PosInf"
| "float_abs NegInf = PosInf"
| "float_abs NaN = NaN"

fun float_ge :: "float64 \<Rightarrow> real \<Rightarrow> bool" where
  "float_ge (Num a) d = (d \<le> a)"
| "float_ge PosInf d = True"
| "float_ge NegInf d = False"
| "float_ge NaN d = False"

subsection \<open>Python values and exceptions\<close>

text \<open>
  \<^verbatim>\<open>setLastMeasurement\<close> tests the run-time type of its argument, so its argument
  is a Python value of any of the built-in types a caller can pass.
\<close>

datatype pyval = PyNone | PyFloat real | PyInt int | PyStr string

datatype error = ValueError | UnboundLocalError | OverflowError

text \<open>\<^verbatim>\<open>type(v) is float\<close>\<close>

fun type_is_float :: "pyval \<Rightarrow> bool" where
  "type_is_float (PyFloat x) = True"
| "type_is_float v = False"

text \<open>An optional float (\<^verbatim>\<open>current_distance\<close>) as a Python value.\<close>

fun to_pyval :: "real option \<Rightarrow> pyval" where
  "to_pyval None = PyNone"
| "to_pyval (Some x) = PyFloat x"

subsection \<open>ThreadedLoop\<close>

text \<open>
  The built-in \<^verbatim>\<open>round(x, 2)\<close> on a float: the exact value of \<open>x\<close> is rounded to
  two decimals, ties to even, and the decimal is converted to the nearest double;
  \<^verbatim>\<open>OverflowError\<close> if that conversion overflows. Infinities and NaN are
  returned as they are.
\<close>

fun py_round2 :: "float64 \<Rightarrow> error + float64" where
  "py_round2 (Num x) =
     (case to_float64 (of_int (round_half_even (100 * x)) / 100) of
        Num r \<Rightarrow> Inr (Num r)
      | _ \<Rightarrow> Inl OverflowError)"
| "py_round2 v = Inr v"

text \<open>
  \<^verbatim>\<open>calculate_pulse_duration\<close> subtracts two times. In \<^verbatim>\<open>calculateDistance\<close>,
  \<^verbatim>\<open>SPEEDOFSOUND/2\<close> is the true division of two integers, a float.
\<close>

definition calculate_pulse_duration :: "real option \<Rightarrow> real option \<Rightarrow> error + float64" where
  "calculate_pulse_duration pulseStart pulseEnd =
     (if pulseStart = None \<or> pulseEnd = None then Inl ValueError
      else Inr (float_sub (the pulseEnd) (the pulseStart)))"

definition calculateDistance :: "float64 option \<Rightarrow> error + float64" where
  "calculateDistance pulseDuration =
     (if pulseDuration = None then Inl ValueError
      else py_round2 (float_mul (to_float64 (SPEEDOFSOUND / 2)) (the pulseDuration)))"

text \<open>
  The sensor is the environment of \<^verbatim>\<open>run\<close>: \<open>echo n\<close> is what the \<open>n\<close>-th call
  of \<^verbatim>\<open>GPIO.input(ECHO)\<close> returns (\<open>True\<close> for 1), and \<open>clock n\<close> is what
  \<^verbatim>\<open>time.time()\<close> returns when called after that read. The two busy-wait loops
  of \<^verbatim>\<open>run\<close> are functions into \<open>option\<close>: a loop that never leaves has the
  value \<open>None\<close>, and the body itself never produces \<open>None\<close>. A loop returns the number
  of the next read and the local variable it assigns.
\<close>

partial_function (option) wait_echo_rise ::
  "(nat \<Rightarrow> bool) \<Rightarrow> (nat \<Rightarrow> real) \<Rightarrow> nat \<Rightarrow> real option \<Rightarrow> (nat \<times> real option) option" where
  "wait_echo_rise echo clock i pulse_start =
     (if \<not> echo i then wait_echo_rise echo clock (Suc i) (Some (clock i))
      else Some (Suc i, pulse_start))"

partial_function (option) wait_echo_fall ::
  "(nat \<Rightarrow> bool) \<Rightarrow> (nat \<Rightarrow> real) \<Rightarrow> nat \<Rightarrow> real option \<Rightarrow> (nat \<times> real option) option" where
  "wait_echo_fall echo clock i pulse_end =
     (if echo i then wait_echo_fall echo clock (Suc i) (Some (clock i))
      else Some (Suc i, pulse_end))"

text \<open>
  One pass of the \<^verbatim>\<open>while not self._stop_event.is_set()\<close> loop of \<^verbatim>\<open>run\<close>,
  after \<^verbatim>\<open>makePulse\<close> (which only drives the trigger pin and sleeps). The state is
  the number of the next read and the locals \<^verbatim>\<open>pulse_start\<close> and
  \<^verbatim>\<open>pulse_end\<close>, which are unbound (\<open>None\<close>) until a loop body has run once and
  keep their values from one pass to the next. Reading an unbound local raises
  \<^verbatim>\<open>UnboundLocalError\<close>. The pass yields the new locals and the new
  \<^verbatim>\<open>_current_distance\<close>.
\<close>

definition ThreadedLoop_run_iteration ::
  "(nat \<Rightarrow> bool) \<Rightarrow> (nat \<Rightarrow> real) \<Rightarrow> nat \<times> real option \<times> real option \<Rightarrow>
     (error + (nat \<times> real option \<times> real option) \<times> float64) option" where
  "ThreadedLoop_run_iteration echo clock st =
     (case st of (i, pulse_start, pulse_end) \<Rightarrow>
        (case wait_echo_rise echo clock i pulse_start of
           None \<Rightarrow> None
         | Some (i1, pulse_start1) \<Rightarrow>
             (case wait_echo_fall echo clock i1 pulse_end of
                None \<Rightarrow> None
              | Some (i2, pulse_end1) \<Rightarrow>
                  Some (if pulse_start1 = None \<or> pulse_end1 = None then Inl UnboundLocalError
                        else (case calculate_pulse_duration pulse_start1 pulse_end1 of
                                Inl e \<Rightarrow> Inl e
                              | Inr d \<Rightarrow>
                                  (case calculateDistance (Some d) of
                                     Inl e \<Rightarrow> Inl e
                                   | Inr distance \<Rightarrow>
                                       Inr ((i2, pulse_start1, pulse_end1), distance)))))))"


definition echo_pulse :: "nat \<Rightarrow> bool" where
  "echo_pulse n = (2 \<le> n \<and> n < 5)"

definition echo_already_high :: "nat \<Rightarrow> bool" where
  "echo_already_high n = (n < 2)"

definition tick_clock :: "nat \<Rightarrow> real" where
  "tick_clock n = real n"

subsection \<open>BasicEscalator\<close>

text \<open>
  The attributes \<^verbatim>\<open>_status\<close>, \<^verbatim>\<open>_onEscalator\<close> and \<^verbatim>\<open>_lastMeasurement\<close>.
  \<^verbatim>\<open>_lastMeasurement\<close> starts as the integer 0, which Python's mixed arithmetic
  treats as the float 0.0.
\<close>

record BasicEscalator =
  status_attr :: "string option"
  onEscalator :: int
  lastMeasurement :: real

definition RUNNING :: string where
  "RUNNING = ''Running''"

definition STOPPED :: string where
  "STOPPED = ''Stopped''"

definition BasicEscalator_init :: BasicEscalator where
  "BasicEscalator_init = \<lparr>status_attr = None, onEscalator = 0, lastMeasurement = 0\<rparr>"

definition setLastMeasurement :: "BasicEscalator \<Rightarrow> pyval \<Rightarrow> error + BasicEscalator" where
  "setLastMeasurement self measurement =
     (if \<not> type_is_float measurement \<or> measurement = PyNone then Inl ValueError
      else (case measurement of
              PyFloat x \<Rightarrow> Inr (self\<lparr>lastMeasurement := x\<rparr>)
            | _ \<Rightarrow> Inl ValueError))"

definition escalatorCount :: "BasicEscalator \<Rightarrow> int" where
  "escalatorCount self = onEscalator self"

definition status :: "BasicEscalator \<Rightarrow> string" where
  "status self = (if escalatorCount self > 0 then RUNNING else STOPPED)"

definition decreaseCount :: "BasicEscalator \<Rightarrow> int \<Rightarrow> BasicEscalator" where
  "decreaseCount self decreaseFactor =
     self\<lparr>onEscalator := onEscalator self - decreaseFactor\<rparr>"

definition compareAndIncrease :: "BasicEscalator \<Rightarrow> real option \<Rightarrow> BasicEscalator" where
  "compareAndIncrease self measurement =
     (case measurement of
        Some m \<Rightarrow>
          (if float_ge (float_abs (float_sub (lastMeasurement self) m)) DEVIATION \<and>
              \<not> (m > lastMeasurement self)
           then self\<lparr>onEscalator := onEscalator self + 1\<rparr>
           else self)
      | None \<Rightarrow> self)"

subsection \<open>SimpleDecrease\<close>

text \<open>
  One pass of the loop of \<^verbatim>\<open>SimpleDecrease.run\<close> with the stop event not set. The
  inner \<^verbatim>\<open>for\<close> loop only sleeps (up to \<open>TRAVELTIME\<close> seconds) and does not touch
  the escalator object.
\<close>

definition SimpleDecrease_run_iteration :: "BasicEscalator \<Rightarrow> BasicEscalator" where
  "SimpleDecrease_run_iteration basicEscObj =
     (if escalatorCount basicEscObj \<ge> 0
      then decreaseCount basicEscObj (escalatorCount basicEscObj)
      else basicEscObj)"

subsection \<open>mainLoop\<close>

text \<open>
  What one pass of the \<^verbatim>\<open>while True\<close> loop prints: last measurement, new
  measurement, count and status, read after \<^verbatim>\<open>compareAndIncrease\<close>.
\<close>

type_synonym report = "real \<times> real option \<times> int \<times> string"

definition print_report :: "BasicEscalator \<Rightarrow> real option \<Rightarrow> report" where
  "print_report escalatorLogic current_distance =
     (lastMeasurement escalatorLogic, current_distance,
      escalatorCount escalatorLogic, status escalatorLogic)"

definition mainLoop_iteration ::
  "BasicEscalator \<Rightarrow> real option \<Rightarrow> report \<times> (error + BasicEscalator)" where
  "mainLoop_iteration escalatorLogic current_distance =
     (let e1 = compareAndIncrease escalatorLogic current_distance;
          out = print_report e1 current_distance
      in (out,
          if current_distance \<noteq> None
          then setLastMeasurement e1 (to_pyval current_distance)
          else Inr e1))"

text \<open>
  The loop over the successive values of \<^verbatim>\<open>current_distance\<close>; an exception ends
  it.
\<close>

fun mainLoop_run ::
  "BasicEscalator \<Rightarrow> real option list \<Rightarrow> report list \<times> (error + BasicEscalator)" where
  "mainLoop_run escalatorLogic [] = ([], Inr escalatorLogic)"
| "mainLoop_run escalatorLogic (d # ds) =
     (case mainLoop_iteration escalatorLogic d of
        (out, Inl e) \<Rightarrow> ([out], Inl e)
      | (out, Inr e1) \<Rightarrow>
          (case mainLoop_run e1 ds of (outs, r) \<Rightarrow> (out # outs, r)))"

subsection \<open>The states the program reaches\<close>

text \<open>
  The escalator object is created by \<^verbatim>\<open>mainLoop\<close> and is then changed only by the
  calls of \<^verbatim>\<open>compareAndIncrease\<close> and \<^verbatim>\<open>setLastMeasurement\<close> in
  \<^verbatim>\<open>mainLoop\<close> and by the passes of \<^verbatim>\<open>SimpleDecrease.run\<close>, here in any
  order and with any arguments.
\<close>

inductive reachable :: "BasicEscalator \<Rightarrow> bool" where
  reachable_init: "reachable BasicEscalator_init"
| reachable_compare: "reachable s \<Longrightarrow> reachable (compareAndIncrease s d)"
| reachable_record: "reachable s \<Longrightarrow> setLastMeasurement s v = Inr s' \<Longrightarrow> reachable s'"
| reachable_decay: "reachable s \<Longrightarrow> reachable (SimpleDecrease_run_iteration s)"

subsection \<open>The specification's reading of two operations\<close>

text \<open>
  The specification describes \<open>decreaseCount\<close> as a clamped subtraction. This
  definition follows the specification's words, not the source.
\<close>

definition decreaseCount_clamped :: "BasicEscalator \<Rightarrow> int \<Rightarrow> BasicEscalator" where
  "decreaseCount_clamped self amount =
     self\<lparr>onEscalator := max 0 (onEscalator self - amount)\<rparr>"

text \<open>
  The specification's words for the arguments of \<open>setLastMeasurement\<close>: a value is
  absent, or it is a numeric value (an integer or a float).
\<close>

fun absent :: "pyval \<Rightarrow> bool" where
  "absent PyNone = True"
| "absent v = False"

fun numeric :: "pyval \<Rightarrow> bool" where
  "numeric (PyFloat x) = True"
| "numeric (PyInt i) = True"
| "numeric v = False"

section \<open>Properties of binary64 arithmetic\<close>

lemma two_powi_add: "(2::real) powi (m + n) = 2 powi m * 2 powi n"
  by (rule power_int_add) simp

lemma two_powi_mono: "m \<le> n \<Longrightarrow> (2::real) powi m \<le> 2 powi n"
  by (rule power_int_increasing) simp_all

lemma round_half_even_of_int: "round_half_even (of_int k) = k"
  by (simp add: round_half_even_def)

lemma round_half_even_error: "\<bar>of_int (round_half_even x) - x\<bar> \<le> 1 / 2"
proof -
  have "of_int \<lfloor>x\<rfloor> \<le> x" "x < of_int \<lfloor>x\<rfloor> + 1" by linarith+
  then show ?thesis
    by (auto simp: round_half_even_def Let_def)
qed

lemma round_half_even_ge:
  assumes "of_int n \<le> x"
  shows "n \<le> round_half_even x"
proof -
  from round_half_even_error [of x] assms
  have "of_int n - 1 < (of_int (round_half_even x) :: real)" by linarith
  then have "n - 1 < round_half_even x" by linarith
  then show ?thesis by simp
qed

lemma round_half_even_le:
  assumes "x \<le> of_int n"
  shows "round_half_even x \<le> n"
proof -
  from round_half_even_error [of x] assms
  have "(of_int (round_half_even x) :: real) < of_int n + 1" by linarith
  then have "round_half_even x < n + 1" by linarith
  then show ?thesis by simp
qed

lemma round_half_even_less:
  assumes "x < of_int n - 1 / 2"
  shows "round_half_even x < n"
proof -
  from round_half_even_error [of x] assms
  have "(of_int (round_half_even x) :: real) < of_int n" by linarith
  then show ?thesis by linarith
qed

lemma round_half_even_ge_even:
  assumes "even n"
  shows "n \<le> round_half_even x \<longleftrightarrow> of_int n - 1 / 2 \<le> x"
proof
  assume "n \<le> round_half_even x"
  then have "(of_int n :: real) \<le> of_int (round_half_even x)" by linarith
  with round_half_even_error [of x] show "of_int n - 1 / 2 \<le> x" by linarith
next
  assume a: "of_int n - 1 / 2 \<le> x"
  show "n \<le> round_half_even x"
  proof (cases "x = of_int n - 1 / 2")
    case True
    then have f: "\<lfloor>x\<rfloor> = n - 1" by linarith
    with assms have "odd \<lfloor>x\<rfloor>" by simp
    with True f show ?thesis by (simp add: round_half_even_def Let_def)
  next
    case False
    with a have "of_int n - 1 / 2 < x" by simp
    with round_half_even_error [of x]
    have "of_int n - 1 < (of_int (round_half_even x) :: real)" by linarith
    then have "n - 1 < round_half_even x" by linarith
    then show ?thesis by simp
  qed
qed

lemma exponent_up_bounds:
  "1 \<le> x \<Longrightarrow> e \<le> exponent_up x e \<and> 2 powi (exponent_up x e - e) \<le> x \<and>
     x < 2 powi (exponent_up x e - e + 1)"
proof (induction x e rule: exponent_up.induct)
  case (1 x e)
  show ?case
  proof (cases "2 \<le> x")
    case True
    then have "1 \<le> x / 2" by simp
    from "1.IH" [OF True this] have
      a: "e + 1 \<le> exponent_up (x / 2) (e + 1)" and
      b: "2 powi (exponent_up (x / 2) (e + 1) - (e + 1)) \<le> x / 2" and
      c: "x / 2 < 2 powi (exponent_up (x / 2) (e + 1) - (e + 1) + 1)" by simp_all
    have eq: "exponent_up x e = exponent_up (x / 2) (e + 1)"
      using True by (subst exponent_up.simps) simp
    have "exponent_up x e - e = (exponent_up (x / 2) (e + 1) - (e + 1)) + 1"
      by (simp add: eq)
    then have p: "(2::real) powi (exponent_up x e - e) =
        2 powi (exponent_up (x / 2) (e + 1) - (e + 1)) * 2"
      by (simp only: two_powi_add) simp
    have "exponent_up x e - e + 1 = (exponent_up (x / 2) (e + 1) - (e + 1) + 1) + 1"
      by (simp add: eq)
    then have q: "(2::real) powi (exponent_up x e - e + 1) =
        2 powi (exponent_up (x / 2) (e + 1) - (e + 1) + 1) * 2"
      by (simp only: two_powi_add) simp
    from a b c show ?thesis unfolding p q by (simp add: eq)
  next
    case False
    then have "exponent_up x e = e" by (subst exponent_up.simps) simp
    with False "1.prems" show ?thesis by simp
  qed
qed

lemma exponent_down_bounds:
  "x < 2 \<Longrightarrow> - 1022 \<le> e \<Longrightarrow>
     - 1022 \<le> exponent_down x e \<and> exponent_down x e \<le> e \<and>
     x * 2 powi (e - exponent_down x e) < 2 \<and>
     (1 \<le> x * 2 powi (e - exponent_down x e) \<or> exponent_down x e = - 1022)"
proof (induction x e rule: exponent_down.induct)
  case (1 x e)
  show ?case
  proof (cases "x < 1 \<and> - 1022 < e")
    case True
    then have "2 * x < 2" "- 1022 \<le> e - 1" by simp_all
    from "1.IH" [OF True this] have
      a: "- 1022 \<le> exponent_down (2 * x) (e - 1)" and
      b: "exponent_down (2 * x) (e - 1) \<le> e - 1" and
      c: "2 * x * 2 powi (e - 1 - exponent_down (2 * x) (e - 1)) < 2" and
      d: "1 \<le> 2 * x * 2 powi (e - 1 - exponent_down (2 * x) (e - 1)) \<or>
          exponent_down (2 * x) (e - 1) = - 1022" by simp_all
    have eq: "exponent_down x e = exponent_down (2 * x) (e - 1)"
      using True by (subst exponent_down.simps) simp
    have "e - exponent_down x e = (e - 1 - exponent_down (2 * x) (e - 1)) + 1"
      by (simp add: eq)
    then have p: "(2::real) powi (e - exponent_down x e) =
        2 powi (e - 1 - exponent_down (2 * x) (e - 1)) * 2"
      by (simp only: two_powi_add) simp
    from a b c d show ?thesis unfolding p by (simp add: eq mult_ac)
  next
    case False
    then have "exponent_down x e = e" by (subst exponent_down.simps) auto
    with False "1.prems" show ?thesis by auto
  qed
qed

lemma binade_bounds:
  "- 1022 \<le> binade x \<and> \<bar>x\<bar> < 2 powi (binade x + 1) \<and>
   (2 powi binade x \<le> \<bar>x\<bar> \<or> binade x = - 1022)"
proof (cases "1 \<le> \<bar>x\<bar>")
  case True
  from exponent_up_bounds [OF True, of 0] True show ?thesis
    by (simp add: binade_def)
next
  case False
  then have "\<bar>x\<bar> < 2" by simp
  from exponent_down_bounds [OF this, of 0]
  have a: "- 1022 \<le> binade x" "binade x \<le> 0" and
    b: "\<bar>x\<bar> * 2 powi (- binade x) < 2" and
    c: "1 \<le> \<bar>x\<bar> * 2 powi (- binade x) \<or> binade x = - 1022"
    using False by (simp_all add: binade_def)
  have inv: "(2::real) powi (- binade x) = 1 / 2 powi binade x"
    by (simp add: power_int_minus_divide)
  have pos: "(0::real) < 2 powi binade x" by simp
  from b pos have "\<bar>x\<bar> < 2 * 2 powi binade x"
    unfolding inv by (simp add: field_simps)
  then have u: "\<bar>x\<bar> < 2 powi (binade x + 1)"
    using two_powi_add [of "binade x" 1] by simp
  from c pos have "2 powi binade x \<le> \<bar>x\<bar> \<or> binade x = - 1022"
    unfolding inv by (auto simp: field_simps)
  with a u show ?thesis by simp
qed

lemma binade_unique:
  assumes "2 powi e \<le> \<bar>x\<bar>" and "\<bar>x\<bar> < 2 powi (e + 1)" and "- 1022 \<le> e"
  shows "binade x = e"
proof (rule ccontr)
  assume ne: "binade x \<noteq> e"
  from binade_bounds [of x] have
    u: "\<bar>x\<bar> < 2 powi (binade x + 1)" and
    l: "2 powi binade x \<le> \<bar>x\<bar> \<or> binade x = - 1022" and m: "- 1022 \<le> binade x" by simp_all
  show False
  proof (cases "binade x < e")
    case True
    then have "(2::real) powi (binade x + 1) \<le> 2 powi e" by (intro two_powi_mono) simp
    with u assms(1) show False by simp
  next
    case False
    with ne have gt: "e + 1 \<le> binade x" by simp
    with assms(3) l have "2 powi binade x \<le> \<bar>x\<bar>" by auto
    moreover from gt have "(2::real) powi (e + 1) \<le> 2 powi binade x" by (rule two_powi_mono)
    ultimately show False using assms(2) by simp
  qed
qed

lemma ulp_pos: "0 < ulp x"
  by (simp add: ulp_def)

lemma round_half_even_nonneg: "0 \<le> x \<Longrightarrow> 0 \<le> round_half_even x"
  using round_half_even_ge [of 0 x] by simp

lemma fl64_abs: "\<bar>fl64 x\<bar> = of_int (round_half_even (\<bar>x\<bar> / ulp x)) * ulp x"
proof -
  let ?v = "of_int (round_half_even (\<bar>x\<bar> / ulp x)) * ulp x"
  have "0 \<le> \<bar>x\<bar> / ulp x" using ulp_pos [of x] by simp
  then have "0 \<le> round_half_even (\<bar>x\<bar> / ulp x)" by (rule round_half_even_nonneg)
  then have nn: "0 \<le> ?v" using ulp_pos [of x] by simp
  show ?thesis
  proof (cases "x = 0")
    case True
    then show ?thesis by (simp add: fl64_def round_half_even_def)
  next
    case False
    have "\<bar>fl64 x\<bar> = \<bar>sgn x\<bar> * \<bar>?v\<bar>" unfolding fl64_def by (rule abs_mult)
    also from False have "\<bar>sgn x\<bar> = 1" by (simp add: abs_sgn_eq)
    also from nn have "\<bar>?v\<bar> = ?v" by (rule abs_of_nonneg)
    finally show ?thesis by simp
  qed
qed

lemma fl64_error: "\<bar>fl64 x - x\<bar> \<le> ulp x / 2"
proof -
  let ?u = "ulp x" and ?k = "of_int (round_half_even (\<bar>x\<bar> / ulp x)) :: real"
  have u: "0 < ?u" by (rule ulp_pos)
  have "(?k - \<bar>x\<bar> / ?u) * ?u = ?k * ?u - \<bar>x\<bar>"
    using u by (simp add: left_diff_distrib)
  then have "\<bar>?k * ?u - \<bar>x\<bar>\<bar> = \<bar>?k - \<bar>x\<bar> / ?u\<bar> * \<bar>?u\<bar>"
    by (simp only: abs_mult [symmetric])
  also have "\<bar>?u\<bar> = ?u" using u by simp
  also have "\<bar>?k - \<bar>x\<bar> / ?u\<bar> * ?u \<le> 1 / 2 * ?u"
    using u round_half_even_error [of "\<bar>x\<bar> / ?u"] by (intro mult_right_mono) simp_all
  finally have e: "\<bar>?k * ?u - \<bar>x\<bar>\<bar> \<le> ?u / 2" by simp
  have "fl64 x - x = sgn x * (?k * ?u - \<bar>x\<bar>)"
    by (simp add: fl64_def right_diff_distrib sgn_mult_abs)
  then have "\<bar>fl64 x - x\<bar> = \<bar>sgn x\<bar> * \<bar>?k * ?u - \<bar>x\<bar>\<bar>"
    by (simp only: abs_mult)
  also have "\<dots> \<le> 1 * \<bar>?k * ?u - \<bar>x\<bar>\<bar>"
    by (intro mult_right_mono) (simp_all add: abs_sgn_eq)
  finally show ?thesis using e by simp
qed

lemma ulp_times_53: "ulp x * 2 ^ 53 = 2 powi (binade x + 1)"
proof -
  have "binade x + 1 = (binade x - 52) + 53" by linarith
  then have "(2::real) powi (binade x + 1) = 2 powi ((binade x - 52) + 53)"
    by (rule arg_cong)
  also have "\<dots> = 2 powi (binade x - 52) * 2 powi 53" by (rule two_powi_add)
  finally show ?thesis by (simp add: ulp_def)
qed

lemma ulp_times_52: "ulp x * 2 ^ 52 = 2 powi binade x"
proof -
  have "binade x = (binade x - 52) + 52" by linarith
  then have "(2::real) powi binade x = 2 powi ((binade x - 52) + 52)"
    by (rule arg_cong)
  also have "\<dots> = 2 powi (binade x - 52) * 2 powi 52" by (rule two_powi_add)
  finally show ?thesis by (simp add: ulp_def)
qed

lemma fl64_upper: "\<bar>fl64 x\<bar> \<le> 2 powi (binade x + 1)"
proof -
  from binade_bounds [of x] have "\<bar>x\<bar> < ulp x * 2 ^ 53" unfolding ulp_times_53 by simp
  then have "\<bar>x\<bar> / ulp x \<le> of_int (2 ^ 53)"
    using ulp_pos [of x] by (simp add: field_simps)
  then have "round_half_even (\<bar>x\<bar> / ulp x) \<le> 2 ^ 53" by (rule round_half_even_le)
  then have "(of_int (round_half_even (\<bar>x\<bar> / ulp x)) :: real) \<le> of_int (2 ^ 53)"
    by (simp only: of_int_le_iff)
  then have "of_int (round_half_even (\<bar>x\<bar> / ulp x)) * ulp x \<le> of_int (2 ^ 53) * ulp x"
    using ulp_pos [of x] by (intro mult_right_mono) simp_all
  then show ?thesis unfolding fl64_abs using ulp_times_53 [of x] by (simp add: mult.commute)
qed

lemma fl64_lower:
  assumes "2 powi binade x \<le> \<bar>x\<bar>"
  shows "2 powi binade x \<le> \<bar>fl64 x\<bar>"
proof -
  from assms have "ulp x * 2 ^ 52 \<le> \<bar>x\<bar>" unfolding ulp_times_52 .
  then have "of_int (2 ^ 52) \<le> \<bar>x\<bar> / ulp x"
    using ulp_pos [of x] by (simp add: field_simps)
  then have "2 ^ 52 \<le> round_half_even (\<bar>x\<bar> / ulp x)" by (rule round_half_even_ge)
  then have "(of_int (2 ^ 52) :: real) \<le> of_int (round_half_even (\<bar>x\<bar> / ulp x))"
    by (simp only: of_int_le_iff)
  then have "of_int (2 ^ 52) * ulp x \<le> of_int (round_half_even (\<bar>x\<bar> / ulp x)) * ulp x"
    using ulp_pos [of x] by (intro mult_right_mono) simp_all
  then show ?thesis unfolding fl64_abs using ulp_times_52 [of x] by (simp add: mult.commute)
qed


lemma binade_one_to_two: "1 \<le> \<bar>x\<bar> \<Longrightarrow> \<bar>x\<bar> < 2 \<Longrightarrow> binade x = 0"
  by (rule binade_unique) simp_all

lemma fl64_ge_two_iff: "2 \<le> \<bar>fl64 x\<bar> \<longleftrightarrow> 2 - 1 / 2 ^ 53 \<le> \<bar>x\<bar>"
proof -
  consider "2 \<le> \<bar>x\<bar>" | "\<bar>x\<bar> < 1" | "1 \<le> \<bar>x\<bar>" "\<bar>x\<bar> < 2" by linarith
  then show ?thesis
  proof cases
    case 1
    from binade_bounds [of x] have u: "\<bar>x\<bar> < 2 powi (binade x + 1)"
      and l: "2 powi binade x \<le> \<bar>x\<bar> \<or> binade x = - 1022" by simp_all
    have "1 \<le> binade x"
    proof (rule ccontr)
      assume "\<not> 1 \<le> binade x"
      then have "binade x + 1 \<le> 1" by simp
      then have "(2::real) powi (binade x + 1) \<le> 2 powi 1" by (rule two_powi_mono)
      with u 1 show False by simp
    qed
    with l have "2 powi binade x \<le> \<bar>x\<bar>" by auto
    then have "2 powi binade x \<le> \<bar>fl64 x\<bar>" by (rule fl64_lower)
    moreover from \<open>1 \<le> binade x\<close> have "(2::real) powi 1 \<le> 2 powi binade x"
      by (rule two_powi_mono)
    ultimately have "2 \<le> \<bar>fl64 x\<bar>" by simp
    moreover from 1 have "2 - 1 / 2 ^ 53 \<le> \<bar>x\<bar>" by simp
    ultimately show ?thesis by simp
  next
    case 2
    from binade_bounds [of x] have
      l: "2 powi binade x \<le> \<bar>x\<bar> \<or> binade x = - 1022" by simp
    have "binade x + 1 \<le> 0"
    proof (rule ccontr)
      assume "\<not> binade x + 1 \<le> 0"
      then have n: "0 \<le> binade x" by simp
      with l have "2 powi binade x \<le> \<bar>x\<bar>" by auto
      moreover from n have "(2::real) powi 0 \<le> 2 powi binade x" by (rule two_powi_mono)
      ultimately show False using 2 by simp
    qed
    then have "(2::real) powi (binade x + 1) \<le> 2 powi 0" by (rule two_powi_mono)
    with fl64_upper [of x] have "\<bar>fl64 x\<bar> \<le> 1" by simp
    moreover from 2 have "\<not> 2 - 1 / 2 ^ 53 \<le> \<bar>x\<bar>" by simp
    ultimately show ?thesis by simp
  next
    case 3
    then have b: "binade x = 0" by (rule binade_one_to_two)
    then have u: "ulp x = 1 / 2 ^ 52" by (simp add: ulp_def)
    have "2 \<le> \<bar>fl64 x\<bar> \<longleftrightarrow>
        (of_int (2 ^ 53) :: real) \<le> of_int (round_half_even (\<bar>x\<bar> * 2 ^ 52))"
      unfolding fl64_abs u by (simp add: field_simps)
    also have "\<dots> \<longleftrightarrow> 2 ^ 53 \<le> round_half_even (\<bar>x\<bar> * 2 ^ 52)"
      by (simp only: of_int_le_iff)
    also have "\<dots> \<longleftrightarrow> of_int (2 ^ 53) - 1 / 2 \<le> \<bar>x\<bar> * 2 ^ 52"
      by (rule round_half_even_ge_even) simp
    also have "\<dots> \<longleftrightarrow> 2 - 1 / 2 ^ 53 \<le> \<bar>x\<bar>"
      by (simp add: field_simps)
    finally show ?thesis .
  qed
qed

lemma float_ge_abs_sub: "float_ge (float_abs (float_sub a b)) d \<longleftrightarrow>
    (2 ^ 1024 \<le> \<bar>fl64 (a - b)\<bar> \<or> d \<le> \<bar>fl64 (a - b)\<bar>)"
  by (auto simp: float_sub_def to_float64_def Let_def)

lemma is_binary64_below_two:
  assumes "is_binary64 x" and "x < 2"
  shows "x \<le> 2 - 1 / 2 ^ 52"
proof (cases "x < 1")
  case True
  then show ?thesis by simp
next
  case False
  with assms(2) have r: "1 \<le> \<bar>x\<bar>" "\<bar>x\<bar> < 2" by simp_all
  then have "binade x = 0" by (rule binade_one_to_two)
  then have u: "ulp x = 1 / 2 ^ 52" by (simp add: ulp_def)
  from assms(1) have "\<bar>fl64 x\<bar> = \<bar>x\<bar>" by (simp add: is_binary64_def)
  then have "of_int (round_half_even (\<bar>x\<bar> * 2 ^ 52)) = \<bar>x\<bar> * 2 ^ 52"
    unfolding fl64_abs u by (simp add: field_simps)
  moreover from r have "\<bar>x\<bar> * 2 ^ 52 < of_int (2 ^ 53)" by simp
  ultimately have "(of_int (round_half_even (\<bar>x\<bar> * 2 ^ 52)) :: real) < of_int (2 ^ 53)"
    by simp
  then have "round_half_even (\<bar>x\<bar> * 2 ^ 52) < 2 ^ 53" by (simp only: of_int_less_iff)
  then have "round_half_even (\<bar>x\<bar> * 2 ^ 52) \<le> 2 ^ 53 - 1" by simp
  then have "(of_int (round_half_even (\<bar>x\<bar> * 2 ^ 52)) :: real) \<le> of_int (2 ^ 53 - 1)"
    by (simp only: of_int_le_iff)
  with \<open>of_int (round_half_even (\<bar>x\<bar> * 2 ^ 52)) = \<bar>x\<bar> * 2 ^ 52\<close>
  have "\<bar>x\<bar> * 2 ^ 52 \<le> 2 ^ 53 - 1" by simp
  with False show ?thesis by (simp add: field_simps)
qed


lemma fl64_small_binade:
  assumes "binade x \<le> 1022"
  shows "\<bar>fl64 x\<bar> \<le> 2 ^ 1023"
proof -
  from assms have "binade x + 1 \<le> 1023" by simp
  then have "(2::real) powi (binade x + 1) \<le> 2 powi 1023" by (rule two_powi_mono)
  with fl64_upper [of x] show ?thesis by simp
qed

lemma fl64_large_binade:
  assumes "1024 \<le> binade x"
  shows "2 ^ 1024 \<le> \<bar>x\<bar> \<and> 2 ^ 1024 \<le> \<bar>fl64 x\<bar>"
proof -
  from assms binade_bounds [of x] have l: "2 powi binade x \<le> \<bar>x\<bar>" by auto
  then have "2 powi binade x \<le> \<bar>fl64 x\<bar>" by (rule fl64_lower)
  moreover from assms have "(2::real) powi 1024 \<le> 2 powi binade x" by (rule two_powi_mono)
  ultimately show ?thesis using l by simp
qed

lemma fl64_top_binade:
  assumes "binade x = 1023" and "round_half_even (\<bar>x\<bar> / 2 ^ 971) < 2 ^ 53"
  shows "\<bar>fl64 x\<bar> \<le> 2 ^ 1024 - 2 ^ 971"
proof -
  from assms(1) have u: "ulp x = 2 ^ 971" by (simp add: ulp_def)
  from assms(2) have "round_half_even (\<bar>x\<bar> / 2 ^ 971) \<le> 2 ^ 53 - 1" by simp
  then have "(of_int (round_half_even (\<bar>x\<bar> / 2 ^ 971)) :: real) \<le> of_int (2 ^ 53 - 1)"
    by (simp only: of_int_le_iff)
  then have "of_int (round_half_even (\<bar>x\<bar> / 2 ^ 971)) * (2 ^ 971 :: real) \<le>
      of_int (2 ^ 53 - 1) * 2 ^ 971"
    by (intro mult_right_mono) simp_all
  moreover have "of_int (2 ^ 53 - 1) * (2 ^ 971 :: real) = 2 ^ 1024 - 2 ^ 971" by simp
  ultimately show ?thesis unfolding fl64_abs u by simp
qed

lemma fl64_below_overflow:
  assumes "\<bar>fl64 x\<bar> < 2 ^ 1024"
  shows "\<bar>fl64 x\<bar> \<le> 2 ^ 1024 - 2 ^ 971"
proof -
  consider "binade x \<le> 1022" | "1024 \<le> binade x" | "binade x = 1023" by linarith
  then show ?thesis
  proof cases
    case 1
    then have "\<bar>fl64 x\<bar> \<le> 2 ^ 1023" by (rule fl64_small_binade)
    moreover have "(2::real) ^ 1023 \<le> 2 ^ 1024 - 2 ^ 971" by simp
    ultimately show ?thesis by (rule order_trans)
  next
    case 2
    then have "2 ^ 1024 \<le> \<bar>fl64 x\<bar>" by (rule fl64_large_binade [THEN conjunct2])
    with assms show ?thesis by simp
  next
    case 3
    then have u: "ulp x = 2 ^ 971" by (simp add: ulp_def)
    have "(of_int (round_half_even (\<bar>x\<bar> / 2 ^ 971)) :: real) < of_int (2 ^ 53)"
    proof (rule ccontr)
      assume "\<not> (of_int (round_half_even (\<bar>x\<bar> / 2 ^ 971)) :: real) < of_int (2 ^ 53)"
      then have "(of_int (2 ^ 53) :: real) \<le> of_int (round_half_even (\<bar>x\<bar> / 2 ^ 971))"
        by simp
      then have "of_int (2 ^ 53) * (2 ^ 971 :: real) \<le>
          of_int (round_half_even (\<bar>x\<bar> / 2 ^ 971)) * 2 ^ 971"
        by (intro mult_right_mono) simp_all
      moreover have "of_int (2 ^ 53) * (2 ^ 971 :: real) = 2 ^ 1024" by simp
      ultimately have "2 ^ 1024 \<le> \<bar>fl64 x\<bar>" unfolding fl64_abs u by simp
      with assms show False by simp
    qed
    then have "round_half_even (\<bar>x\<bar> / 2 ^ 971) < 2 ^ 53" by (simp only: of_int_less_iff)
    with 3 show ?thesis by (rule fl64_top_binade)
  qed
qed

lemma fl64_no_overflow:
  assumes "\<bar>x\<bar> < 2 ^ 1024 - 2 ^ 970"
  shows "\<bar>fl64 x\<bar> \<le> 2 ^ 1024 - 2 ^ 971"
proof -
  consider "binade x \<le> 1022" | "1024 \<le> binade x" | "binade x = 1023" by linarith
  then show ?thesis
  proof cases
    case 1
    then have "\<bar>fl64 x\<bar> \<le> 2 ^ 1023" by (rule fl64_small_binade)
    moreover have "(2::real) ^ 1023 \<le> 2 ^ 1024 - 2 ^ 971" by simp
    ultimately show ?thesis by (rule order_trans)
  next
    case 2
    then have "2 ^ 1024 \<le> \<bar>x\<bar>" by (rule fl64_large_binade [THEN conjunct1])
    with assms show ?thesis by simp
  next
    case 3
    from assms have "\<bar>x\<bar> / 2 ^ 971 < (2 ^ 1024 - 2 ^ 970) / 2 ^ 971"
      by (simp add: divide_strict_right_mono)
    also have "((2::real) ^ 1024 - 2 ^ 970) / 2 ^ 971 = of_int (2 ^ 53) - 1 / 2" by simp
    finally have "round_half_even (\<bar>x\<bar> / 2 ^ 971) < 2 ^ 53" by (rule round_half_even_less)
    with 3 show ?thesis by (rule fl64_top_binade)
  qed
qed

lemma to_float64_finite:
  assumes "\<bar>fl64 x\<bar> < 2 ^ 1024"
  shows "to_float64 x = Num (fl64 x)"
  using assms by (simp add: to_float64_def Let_def abs_less_iff not_le)

lemma to_float64_Num:
  assumes "to_float64 x = Num p"
  shows "p = fl64 x \<and> \<bar>p\<bar> < 2 ^ 1024"
  using assms by (auto simp: to_float64_def Let_def split: if_splits)

lemma py_round2_finite:
  assumes "\<bar>p\<bar> \<le> 2 ^ 1024 - 2 ^ 971"
  shows "py_round2 (Num p) = Inr (Num (fl64 (of_int (round_half_even (100 * p)) / 100)))"
    and "\<bar>of_int (round_half_even (100 * p)) / 100 - p\<bar> \<le> 1 / 200"
proof -
  let ?q = "of_int (round_half_even (100 * p)) / 100 :: real"
  from round_half_even_error [of "100 * p"]
  show e: "\<bar>?q - p\<bar> \<le> 1 / 200" by (simp add: field_simps abs_le_iff)
  have "(2::real) ^ 1024 - 2 ^ 971 + 1 / 200 < 2 ^ 1024 - 2 ^ 970" by simp
  with e assms have "\<bar>?q\<bar> < 2 ^ 1024 - 2 ^ 970" by linarith
  then have "\<bar>fl64 ?q\<bar> \<le> 2 ^ 1024 - 2 ^ 971" by (rule fl64_no_overflow)
  moreover have "(2::real) ^ 1024 - 2 ^ 971 < 2 ^ 1024" by simp
  ultimately have "\<bar>fl64 ?q\<bar> < 2 ^ 1024" by (rule le_less_trans)
  then have "to_float64 ?q = Num (fl64 ?q)" by (rule to_float64_finite)
  then show "py_round2 (Num p) = Inr (Num (fl64 ?q))" by simp
qed

lemma fl64_sgn_abs: "fl64 x = sgn x * \<bar>fl64 x\<bar>"
  by (subst fl64_abs) (simp add: fl64_def)

lemma to_float64_overflow:
  assumes "2 ^ 1024 \<le> \<bar>x\<bar>"
  shows "to_float64 x = (if 0 < x then PosInf else NegInf)"
proof -
  have "1024 \<le> binade x"
  proof (rule ccontr)
    assume "\<not> 1024 \<le> binade x"
    then have "binade x + 1 \<le> 1024" by simp
    then have "(2::real) powi (binade x + 1) \<le> 2 powi 1024" by (rule two_powi_mono)
    with binade_bounds [of x] assms show False by simp
  qed
  then have big: "2 ^ 1024 \<le> \<bar>fl64 x\<bar>" by (rule fl64_large_binade [THEN conjunct2])
  show ?thesis
  proof (cases "0 < x")
    case True
    then have "fl64 x = \<bar>fl64 x\<bar>" using fl64_sgn_abs [of x] by simp
    with big have "2 ^ 1024 \<le> fl64 x" by simp
    with True show ?thesis by (simp add: to_float64_def Let_def)
  next
    case False
    with assms have "x < 0" by (cases "x = 0") simp_all
    then have "fl64 x = - \<bar>fl64 x\<bar>" using fl64_sgn_abs [of x] by simp
    with big have "fl64 x \<le> - (2 ^ 1024)" by simp
    moreover then have "\<not> 2 ^ 1024 \<le> fl64 x" by simp
    ultimately show ?thesis using False by (simp add: to_float64_def Let_def)
  qed
qed

lemma fl64_zero: "fl64 0 = 0"
  by (simp add: fl64_def)

lemma float_sub_self: "float_sub a a = Num 0"
  by (simp add: float_sub_def to_float64_def fl64_zero)


text \<open>Rules that evaluate the arithmetic on concrete numbers other than 0.\<close>

lemmas float_eval =
  fl64_def ulp_def binade_def exponent_up.simps exponent_down.simps round_half_even_def
  to_float64_def float_sub_def Let_def

section \<open>Properties of BasicEscalator\<close>

lemma compareAndIncrease_count:
  "escalatorCount (compareAndIncrease s d) = escalatorCount s \<or>
   escalatorCount (compareAndIncrease s d) = escalatorCount s + 1"
  by (simp add: compareAndIncrease_def escalatorCount_def split: option.split)

lemma compareAndIncrease_nonneg:
  "0 \<le> escalatorCount s \<Longrightarrow> 0 \<le> escalatorCount (compareAndIncrease s d)"
  using compareAndIncrease_count [of s d] by arith

lemma setLastMeasurement_count:
  "setLastMeasurement s v = Inr s' \<Longrightarrow> escalatorCount s' = escalatorCount s"
  by (cases v) (auto simp: setLastMeasurement_def escalatorCount_def)

lemma reachable_mainLoop_iteration:
  assumes "reachable s" and "snd (mainLoop_iteration s d) = Inr s'"
  shows "reachable s'"
proof (cases d)
  case None
  with assms(2) have "s' = compareAndIncrease s d"
    by (simp add: mainLoop_iteration_def Let_def)
  with assms(1) show ?thesis by (simp add: reachable_compare)
next
  case (Some m)
  with assms(2) have "setLastMeasurement (compareAndIncrease s d) (PyFloat m) = Inr s'"
    by (simp add: mainLoop_iteration_def Let_def)
  with reachable_compare [OF assms(1)] show ?thesis by (rule reachable_record)
qed

lemma SimpleDecrease_run_iteration_zero:
  "0 \<le> escalatorCount s \<Longrightarrow> escalatorCount (SimpleDecrease_run_iteration s) = 0"
  by (simp add: SimpleDecrease_run_iteration_def decreaseCount_def escalatorCount_def)

lemma reachable_count_nonneg: "reachable s \<Longrightarrow> 0 \<le> escalatorCount s"
proof (induction rule: reachable.induct)
  case reachable_init
  show ?case by (simp add: BasicEscalator_init_def escalatorCount_def)
next
  case (reachable_compare s d)
  then show ?case by (simp add: compareAndIncrease_nonneg)
next
  case (reachable_record s v s')
  then show ?case by (simp add: setLastMeasurement_count)
next
  case (reachable_decay s)
  then show ?case by (simp add: SimpleDecrease_run_iteration_zero)
qed

lemma reachable_one_rider:
  "reachable \<lparr>status_attr = None, onEscalator = 1, lastMeasurement = 97\<rparr>"
proof -
  have a: "snd (mainLoop_iteration BasicEscalator_init (Some 100)) =
      Inr \<lparr>status_attr = None, onEscalator = 0, lastMeasurement = 100\<rparr>"
    by (simp add: mainLoop_iteration_def compareAndIncrease_def setLastMeasurement_def
        BasicEscalator_init_def DEVIATION_def float_eval)
  have b: "snd (mainLoop_iteration \<lparr>status_attr = None, onEscalator = 0, lastMeasurement = 100\<rparr>
      (Some 97)) = Inr \<lparr>status_attr = None, onEscalator = 1, lastMeasurement = 97\<rparr>"
    by (simp add: mainLoop_iteration_def compareAndIncrease_def setLastMeasurement_def
        DEVIATION_def float_eval)
  show ?thesis
    by (rule reachable_mainLoop_iteration [OF reachable_mainLoop_iteration [OF reachable_init a] b])
qed

lemma mainLoop_run_absent_prefix:
  "snd (mainLoop_run s (replicate n None @ ds)) = snd (mainLoop_run s ds)"
proof (induction n)
  case 0
  show ?case by simp
next
  case (Suc n)
  have "mainLoop_iteration s None = (print_report s None, Inr s)"
    by (simp add: mainLoop_iteration_def compareAndIncrease_def)
  with Suc show ?case by (cases "mainLoop_run s (replicate n None @ ds)") simp
qed

text \<open>
  C1, as the specification states it, fails: \<open>decreaseCount\<close> does not clamp. From the
  initial count 0, decreasing by 1 gives \<open>-1\<close>, where the clamped subtraction gives 0.
\<close>

theorem decreaseCount_goes_negative:
  "escalatorCount (decreaseCount BasicEscalator_init 1) = - 1 \<and>
   escalatorCount (decreaseCount_clamped BasicEscalator_init 1) = 0 \<and>
   \<not> 0 \<le> escalatorCount (decreaseCount BasicEscalator_init 1)"
  by (simp add: decreaseCount_def decreaseCount_clamped_def BasicEscalator_init_def
      escalatorCount_def)

text \<open>
  C1, amended: \<open>decreaseCount\<close> subtracts the amount from the count without clamping, so
  the new count is non-negative exactly when the amount is at most the count, and it
  agrees with the clamped subtraction exactly then. In every state reached from the
  initial state by \<open>compareAndIncrease\<close>, \<open>setLastMeasurement\<close> and passes of
  \<open>SimpleDecrease.run\<close> (the only caller of \<open>decreaseCount\<close>, with the amount equal
  to a non-negative count) the count is never negative.
\<close>

theorem decreaseCount_unclamped_count_nonneg_when_reachable:
  "escalatorCount (decreaseCount s k) = escalatorCount s - k \<and>
   (0 \<le> escalatorCount (decreaseCount s k) \<longleftrightarrow> k \<le> escalatorCount s) \<and>
   (decreaseCount s k = decreaseCount_clamped s k \<longleftrightarrow> k \<le> escalatorCount s) \<and>
   (reachable s \<longrightarrow> 0 \<le> escalatorCount s)"
proof -
  have "decreaseCount s k = decreaseCount_clamped s k \<longleftrightarrow> k \<le> escalatorCount s"
  proof
    assume "decreaseCount s k = decreaseCount_clamped s k"
    then have "onEscalator (decreaseCount s k) = onEscalator (decreaseCount_clamped s k)"
      by simp
    then show "k \<le> escalatorCount s"
      by (simp add: decreaseCount_def decreaseCount_clamped_def escalatorCount_def)
  next
    assume "k \<le> escalatorCount s"
    then show "decreaseCount s k = decreaseCount_clamped s k"
      by (simp add: decreaseCount_def decreaseCount_clamped_def escalatorCount_def)
  qed
  moreover have "escalatorCount (decreaseCount s k) = escalatorCount s - k"
    by (simp add: decreaseCount_def escalatorCount_def)
  moreover have "reachable s \<longrightarrow> 0 \<le> escalatorCount s"
    by (simp add: reachable_count_nonneg)
  ultimately show ?thesis by simp
qed

theorem decreaseCount_unclamped_witness:
  "reachable \<lparr>status_attr = None, onEscalator = 1, lastMeasurement = 97\<rparr> \<and>
   0 \<le> escalatorCount \<lparr>status_attr = None, onEscalator = 1, lastMeasurement = 97\<rparr> \<and>
   escalatorCount
     (decreaseCount \<lparr>status_attr = None, onEscalator = 1, lastMeasurement = 97\<rparr> 1) = 0 \<and>
   escalatorCount
     (decreaseCount \<lparr>status_attr = None, onEscalator = 1, lastMeasurement = 97\<rparr> 2) = - 1"
proof -
  note r = reachable_one_rider
  have c: "escalatorCount \<lparr>status_attr = None, onEscalator = 1, lastMeasurement = 97\<rparr> = 1"
    by (simp add: escalatorCount_def)
  from decreaseCount_unclamped_count_nonneg_when_reachable
    [of "\<lparr>status_attr = None, onEscalator = 1, lastMeasurement = 97\<rparr>" 1] r
  have n: "0 \<le> escalatorCount \<lparr>status_attr = None, onEscalator = 1, lastMeasurement = 97\<rparr>"
    and d1: "escalatorCount
      (decreaseCount \<lparr>status_attr = None, onEscalator = 1, lastMeasurement = 97\<rparr> 1) =
      escalatorCount \<lparr>status_attr = None, onEscalator = 1, lastMeasurement = 97\<rparr> - 1"
    by blast+
  from decreaseCount_unclamped_count_nonneg_when_reachable
    [of "\<lparr>status_attr = None, onEscalator = 1, lastMeasurement = 97\<rparr>" 2]
  have d2: "escalatorCount
      (decreaseCount \<lparr>status_attr = None, onEscalator = 1, lastMeasurement = 97\<rparr> 2) =
      escalatorCount \<lparr>status_attr = None, onEscalator = 1, lastMeasurement = 97\<rparr> - 2"
    by blast
  from r n d1 d2 show ?thesis unfolding c by simp
qed

text \<open>
  C2: \<open>compareAndIncrease\<close> with an absent measurement leaves the whole state
  unchanged; with a measurement \<open>m\<close> it adds exactly 1 to the count if and only if
  \<open>abs(lastMeasurement - m) >= DEVIATION\<close> and \<open>m \<le> lastMeasurement\<close>, and leaves the
  count as it was otherwise. The subtraction, \<open>abs\<close> and \<open>>=\<close> are the program's
  operations on floats. With \<open>lastMeasurement = 100\<close> and \<open>DEVIATION = 2\<close>: 95 counts
  once, 99 and 105 do not count.
\<close>

theorem compareAndIncrease_increments_iff:
  "compareAndIncrease s None = s \<and>
   (escalatorCount (compareAndIncrease s (Some m)) = escalatorCount s + 1 \<longleftrightarrow>
      float_ge (float_abs (float_sub (lastMeasurement s) m)) DEVIATION \<and>
      m \<le> lastMeasurement s) \<and>
   (escalatorCount (compareAndIncrease s (Some m)) = escalatorCount s \<longleftrightarrow>
      \<not> (float_ge (float_abs (float_sub (lastMeasurement s) m)) DEVIATION \<and>
         m \<le> lastMeasurement s)) \<and>
   DEVIATION = 2 \<and>
   float_abs (float_sub 100 95) = Num 5 \<and>
   escalatorCount (compareAndIncrease (s\<lparr>lastMeasurement := 100\<rparr>) (Some 95)) =
     escalatorCount s + 1 \<and>
   float_abs (float_sub 100 99) = Num 1 \<and>
   compareAndIncrease (s\<lparr>lastMeasurement := 100\<rparr>) (Some 99) = s\<lparr>lastMeasurement := 100\<rparr> \<and>
   float_abs (float_sub 100 105) = Num 5 \<and>
   compareAndIncrease (s\<lparr>lastMeasurement := 100\<rparr>) (Some 105) = s\<lparr>lastMeasurement := 100\<rparr>"
proof -
  have a: "float_sub 100 95 = Num 5" "float_sub 100 99 = Num 1" "float_sub 100 105 = Num (- 5)"
    by (simp_all add: float_eval)
  have "compareAndIncrease s None = s"
    by (simp add: compareAndIncrease_def)
  moreover have "escalatorCount (compareAndIncrease s (Some m)) = escalatorCount s + 1 \<longleftrightarrow>
      float_ge (float_abs (float_sub (lastMeasurement s) m)) DEVIATION \<and>
      m \<le> lastMeasurement s"
    by (auto simp: compareAndIncrease_def escalatorCount_def)
  moreover have "escalatorCount (compareAndIncrease s (Some m)) = escalatorCount s \<longleftrightarrow>
      \<not> (float_ge (float_abs (float_sub (lastMeasurement s) m)) DEVIATION \<and>
         m \<le> lastMeasurement s)"
    by (auto simp: compareAndIncrease_def escalatorCount_def)
  moreover have "DEVIATION = 2" by (simp add: DEVIATION_def)
  moreover have "escalatorCount (compareAndIncrease (s\<lparr>lastMeasurement := 100\<rparr>) (Some 95)) =
      escalatorCount s + 1"
    by (simp add: compareAndIncrease_def escalatorCount_def DEVIATION_def a)
  moreover have
    "compareAndIncrease (s\<lparr>lastMeasurement := 100\<rparr>) (Some 99) = s\<lparr>lastMeasurement := 100\<rparr>"
    "compareAndIncrease (s\<lparr>lastMeasurement := 100\<rparr>) (Some 105) = s\<lparr>lastMeasurement := 100\<rparr>"
    by (simp_all add: compareAndIncrease_def DEVIATION_def a)
  ultimately show ?thesis by (simp add: a)
qed

text \<open>
  What the comparison of C2 is in exact arithmetic: a difference of \<open>2 - 2\<^sup>-\<^sup>5\<^sup>3\<close> or
  more rounds to 2.0 or more. The doubles nearest to 2.13 and 0.13 differ by exactly
  \<open>2 - 2\<^sup>-\<^sup>5\<^sup>3\<close>; their float difference is 2.0 and the measurement is counted.
\<close>

lemma deviation_reached_iff:
  "float_ge (float_abs (float_sub a b)) DEVIATION \<longleftrightarrow> 2 - 1 / 2 ^ 53 \<le> \<bar>a - b\<bar>"
proof -
  have "2 ^ 1024 \<le> \<bar>fl64 (a - b)\<bar> \<Longrightarrow> 2 \<le> \<bar>fl64 (a - b)\<bar>"
    by (rule order_trans [of _ "2 ^ 1024"]) simp_all
  then have "float_ge (float_abs (float_sub a b)) DEVIATION \<longleftrightarrow> 2 \<le> \<bar>fl64 (a - b)\<bar>"
    unfolding float_ge_abs_sub DEVIATION_def by blast
  then show ?thesis by (simp only: fl64_ge_two_iff)
qed

lemma rounded_difference_example:
  "fl64 (213 / 100) - fl64 (13 / 100) = 2 - 1 / 2 ^ 53 \<and>
   float_sub (fl64 (213 / 100)) (fl64 (13 / 100)) = Num 2 \<and>
   escalatorCount (compareAndIncrease (BasicEscalator_init\<lparr>lastMeasurement := fl64 (213 / 100)\<rparr>)
     (Some (fl64 (13 / 100)))) = 1"
proof -
  have a: "fl64 (213 / 100) = 2398166801574789 / 1125899906842624"
    and b: "fl64 (13 / 100) = 1170935903116329 / 9007199254740992"
    by (simp_all add: float_eval)
  have c: "float_sub (2398166801574789 / 1125899906842624) (1170935903116329 / 9007199254740992) = Num 2"
    by (simp add: float_eval)
  show ?thesis unfolding a b
    by (simp add: c compareAndIncrease_def escalatorCount_def BasicEscalator_init_def
        DEVIATION_def)
qed

text \<open>
  C3: the derived status is \<open>Running\<close> exactly when the count is positive, and
  \<open>Stopped\<close> otherwise. This holds in every state, reachable or not.
\<close>

theorem status_running_iff_count_positive:
  "(status s = RUNNING \<longleftrightarrow> escalatorCount s > 0) \<and>
   (status s = STOPPED \<longleftrightarrow> \<not> escalatorCount s > 0) \<and>
   RUNNING = ''Running'' \<and> STOPPED = ''Stopped''"
  by (simp add: status_def RUNNING_def STOPPED_def)

text \<open>
  C4, as the specification states it, fails: the integer 5 is present and numeric, and
  \<open>setLastMeasurement\<close> rejects it.
\<close>

theorem setLastMeasurement_rejects_integer:
  "setLastMeasurement BasicEscalator_init (PyInt 5) = Inl ValueError \<and>
   \<not> absent (PyInt 5) \<and> numeric (PyInt 5)"
  by (simp add: setLastMeasurement_def)

text \<open>
  C4, amended: \<open>setLastMeasurement\<close> fails with \<open>ValueError\<close> if and only if its
  argument is not of type float (it is absent, an integer or any other non-float value);
  given a float it overwrites \<open>lastMeasurement\<close> with it and succeeds.
\<close>

theorem setLastMeasurement_fails_iff_not_float:
  "(setLastMeasurement s v = Inl ValueError \<longleftrightarrow> \<not> type_is_float v) \<and>
   (isl (setLastMeasurement s v) \<longleftrightarrow> \<not> type_is_float v) \<and>
   (type_is_float v \<longleftrightarrow> (\<exists>x. v = PyFloat x)) \<and>
   setLastMeasurement s PyNone = Inl ValueError \<and>
   setLastMeasurement s (PyInt i) = Inl ValueError \<and>
   setLastMeasurement s (PyStr t) = Inl ValueError \<and>
   setLastMeasurement s (PyFloat x) = Inr (s\<lparr>lastMeasurement := x\<rparr>)"
  by (cases v) (simp_all add: setLastMeasurement_def)

theorem setLastMeasurement_fails_iff_not_float_witness:
  "type_is_float (PyFloat 97) \<and>
   setLastMeasurement BasicEscalator_init (PyFloat 97) =
     Inr (BasicEscalator_init\<lparr>lastMeasurement := 97\<rparr>) \<and>
   \<not> type_is_float (PyStr ''97'') \<and>
   setLastMeasurement BasicEscalator_init (PyStr ''97'') = Inl ValueError"
  using setLastMeasurement_fails_iff_not_float [of BasicEscalator_init "PyStr ''97''" 0 "''97''" 97]
  by simp

text \<open>
  C9: in the initial state, where \<open>lastMeasurement\<close> is 0, a measurement greater than 0
  never increments the count; in \<open>mainLoop\<close>, after any number of passes without a
  measurement, the first measurement is only recorded. More generally a non-negative
  measurement is counted only in a state whose \<open>lastMeasurement\<close> is positive, and at
  least \<open>DEVIATION\<close> when it is a double, as every float is; only
  \<open>setLastMeasurement\<close> can have put it there.
\<close>

theorem first_measurement_not_counted:
  "(0 < m \<longrightarrow> compareAndIncrease BasicEscalator_init (Some m) = BasicEscalator_init) \<and>
   (0 < m \<longrightarrow>
      snd (mainLoop_run BasicEscalator_init (replicate n None @ [Some m])) =
        Inr (BasicEscalator_init\<lparr>lastMeasurement := m\<rparr>)) \<and>
   lastMeasurement BasicEscalator_init = 0 \<and>
   (0 \<le> m \<and> escalatorCount (compareAndIncrease s (Some m)) \<noteq> escalatorCount s \<longrightarrow>
      0 < lastMeasurement s \<and>
      (is_binary64 (lastMeasurement s) \<longrightarrow> DEVIATION \<le> lastMeasurement s))"
proof -
  have a: "0 < m \<longrightarrow> compareAndIncrease BasicEscalator_init (Some m) = BasicEscalator_init"
    by (simp add: compareAndIncrease_def BasicEscalator_init_def)
  have "0 < m \<longrightarrow> snd (mainLoop_run BasicEscalator_init [Some m]) =
      Inr (BasicEscalator_init\<lparr>lastMeasurement := m\<rparr>)"
    using a by (simp add: mainLoop_iteration_def setLastMeasurement_def)
  then have b: "0 < m \<longrightarrow>
      snd (mainLoop_run BasicEscalator_init (replicate n None @ [Some m])) =
        Inr (BasicEscalator_init\<lparr>lastMeasurement := m\<rparr>)"
    by (simp only: mainLoop_run_absent_prefix)
  have c: "lastMeasurement BasicEscalator_init = 0"
    by (simp add: BasicEscalator_init_def)
  have d: "0 < lastMeasurement s \<and>
      (is_binary64 (lastMeasurement s) \<longrightarrow> DEVIATION \<le> lastMeasurement s)"
    if m: "0 \<le> m" and ch: "escalatorCount (compareAndIncrease s (Some m)) \<noteq> escalatorCount s"
  proof -
    from ch have g: "float_ge (float_abs (float_sub (lastMeasurement s) m)) DEVIATION"
      and le: "m \<le> lastMeasurement s"
      by (auto simp: compareAndIncrease_def escalatorCount_def split: if_splits)
    from g have "2 - 1 / 2 ^ 53 \<le> \<bar>lastMeasurement s - m\<bar>"
      by (simp only: deviation_reached_iff)
    with le m have l: "2 - 1 / 2 ^ 53 \<le> lastMeasurement s" by simp
    then have pos: "0 < lastMeasurement s" by simp
    have "DEVIATION \<le> lastMeasurement s" if "is_binary64 (lastMeasurement s)"
    proof (rule ccontr)
      assume "\<not> DEVIATION \<le> lastMeasurement s"
      then have "lastMeasurement s < 2" by (simp add: DEVIATION_def)
      with that have "lastMeasurement s \<le> 2 - 1 / 2 ^ 52" by (rule is_binary64_below_two)
      moreover have "(2::real) - 1 / 2 ^ 52 < 2 - 1 / 2 ^ 53" by simp
      ultimately show False using l by linarith
    qed
    with pos show ?thesis by blast
  qed
  from a b c d show ?thesis by blast
qed

theorem first_measurement_not_counted_witness:
  "(0::real) < 50 \<and>
   compareAndIncrease BasicEscalator_init (Some 50) = BasicEscalator_init \<and>
   snd (mainLoop_run BasicEscalator_init [None, None, Some 50]) =
     Inr (BasicEscalator_init\<lparr>lastMeasurement := 50\<rparr>) \<and>
   (0::real) \<le> 97 \<and>
   escalatorCount (compareAndIncrease (BasicEscalator_init\<lparr>lastMeasurement := 100\<rparr>) (Some 97))
     \<noteq> escalatorCount (BasicEscalator_init\<lparr>lastMeasurement := 100\<rparr>) \<and>
   0 < lastMeasurement (BasicEscalator_init\<lparr>lastMeasurement := 100\<rparr>) \<and>
   is_binary64 (lastMeasurement (BasicEscalator_init\<lparr>lastMeasurement := 100\<rparr>)) \<and>
   DEVIATION \<le> lastMeasurement (BasicEscalator_init\<lparr>lastMeasurement := 100\<rparr>)"
proof -
  have a: "(0::real) < 50" and b: "(0::real) \<le> 97" by simp_all
  have c: "escalatorCount
      (compareAndIncrease (BasicEscalator_init\<lparr>lastMeasurement := 100\<rparr>) (Some 97))
     \<noteq> escalatorCount (BasicEscalator_init\<lparr>lastMeasurement := 100\<rparr>)"
    by (simp add: compareAndIncrease_def escalatorCount_def DEVIATION_def float_eval)
  have i: "is_binary64 (lastMeasurement (BasicEscalator_init\<lparr>lastMeasurement := 100\<rparr>))"
    by (simp add: is_binary64_def float_eval)
  have r: "replicate 2 None @ [Some (50::real)] = [None, None, Some 50]"
    by (simp add: numeral_2_eq_2)
  from first_measurement_not_counted [of 50 2 "BasicEscalator_init\<lparr>lastMeasurement := 100\<rparr>"] a
  have d: "compareAndIncrease BasicEscalator_init (Some 50) = BasicEscalator_init"
    and e: "snd (mainLoop_run BasicEscalator_init [None, None, Some 50]) =
      Inr (BasicEscalator_init\<lparr>lastMeasurement := 50\<rparr>)"
    unfolding r by blast+
  from first_measurement_not_counted [of 97 0 "BasicEscalator_init\<lparr>lastMeasurement := 100\<rparr>"] b c i
  have "0 < lastMeasurement (BasicEscalator_init\<lparr>lastMeasurement := 100\<rparr>)"
    and "DEVIATION \<le> lastMeasurement (BasicEscalator_init\<lparr>lastMeasurement := 100\<rparr>)"
    by blast+
  with a b c d e i show ?thesis by blast
qed

text \<open>
  C10: the two mutation paths touch disjoint fields. \<open>compareAndIncrease\<close> changes the
  count by 0 or by 1 and leaves \<open>lastMeasurement\<close> (and \<open>_status\<close>) alone; a successful
  \<open>setLastMeasurement\<close> overwrites \<open>lastMeasurement\<close> with its argument and leaves the
  count (and \<open>_status\<close>) alone.
\<close>

theorem mutation_paths_disjoint:
  "(escalatorCount (compareAndIncrease s d) = escalatorCount s \<or>
    escalatorCount (compareAndIncrease s d) = escalatorCount s + 1) \<and>
   lastMeasurement (compareAndIncrease s d) = lastMeasurement s \<and>
   status_attr (compareAndIncrease s d) = status_attr s \<and>
   (setLastMeasurement s v = Inr s' \<longrightarrow>
      v = PyFloat (lastMeasurement s') \<and> s' = s\<lparr>lastMeasurement := lastMeasurement s'\<rparr> \<and>
      escalatorCount s' = escalatorCount s \<and> status_attr s' = status_attr s)"
proof -
  have "lastMeasurement (compareAndIncrease s d) = lastMeasurement s"
    and "status_attr (compareAndIncrease s d) = status_attr s"
    by (simp_all add: compareAndIncrease_def split: option.split)
  moreover have "setLastMeasurement s v = Inr s' \<longrightarrow>
      v = PyFloat (lastMeasurement s') \<and> s' = s\<lparr>lastMeasurement := lastMeasurement s'\<rparr> \<and>
      escalatorCount s' = escalatorCount s \<and> status_attr s' = status_attr s"
    by (cases v) (auto simp: setLastMeasurement_def escalatorCount_def)
  ultimately show ?thesis
    using compareAndIncrease_count [of s d] by blast
qed

theorem mutation_paths_disjoint_witness:
  "setLastMeasurement BasicEscalator_init (PyFloat 42) =
     Inr (BasicEscalator_init\<lparr>lastMeasurement := 42\<rparr>) \<and>
   escalatorCount (BasicEscalator_init\<lparr>lastMeasurement := 42\<rparr>) =
     escalatorCount BasicEscalator_init \<and>
   lastMeasurement (compareAndIncrease BasicEscalator_init (Some 42)) =
     lastMeasurement BasicEscalator_init"
proof -
  have h: "setLastMeasurement BasicEscalator_init (PyFloat 42) =
      Inr (BasicEscalator_init\<lparr>lastMeasurement := 42\<rparr>)"
    by (simp add: setLastMeasurement_def)
  from mutation_paths_disjoint
    [of BasicEscalator_init "Some 42" "PyFloat 42" "BasicEscalator_init\<lparr>lastMeasurement := 42\<rparr>"] h
  show ?thesis by blast
qed

section \<open>Properties of the loops\<close>

text \<open>
  C7: in every state the program reaches, and in every state with a non-negative count,
  one pass of the loop of \<open>SimpleDecrease.run\<close> decreases the count by its entire
  current value, so the count is 0 and the status \<open>Stopped\<close> afterwards; it does not
  touch \<open>lastMeasurement\<close>.
\<close>

theorem decay_resets_count:
  assumes "reachable s \<or> 0 \<le> escalatorCount s"
  shows "SimpleDecrease_run_iteration s = decreaseCount s (escalatorCount s) \<and>
         escalatorCount (SimpleDecrease_run_iteration s) = 0 \<and>
         status (SimpleDecrease_run_iteration s) = STOPPED \<and>
         lastMeasurement (SimpleDecrease_run_iteration s) = lastMeasurement s"
proof -
  from assms have "0 \<le> escalatorCount s" by (blast intro: reachable_count_nonneg)
  then show ?thesis
    by (simp add: SimpleDecrease_run_iteration_def decreaseCount_def escalatorCount_def
        status_def)
qed

theorem decay_resets_count_witness:
  "reachable \<lparr>status_attr = None, onEscalator = 1, lastMeasurement = 97\<rparr> \<and>
   escalatorCount \<lparr>status_attr = None, onEscalator = 1, lastMeasurement = 97\<rparr> = 1 \<and>
   escalatorCount (SimpleDecrease_run_iteration
     \<lparr>status_attr = None, onEscalator = 1, lastMeasurement = 97\<rparr>) = 0 \<and>
   status (SimpleDecrease_run_iteration
     \<lparr>status_attr = None, onEscalator = 1, lastMeasurement = 97\<rparr>) = STOPPED"
proof -
  note r = reachable_one_rider
  have c: "escalatorCount \<lparr>status_attr = None, onEscalator = 1, lastMeasurement = 97\<rparr> = 1"
    by (simp add: escalatorCount_def)
  from decay_resets_count [OF disjI1 [OF r]] r c show ?thesis by blast
qed

text \<open>
  C8: the passes of \<open>mainLoop\<close> over the measurements 100, 100, 97, 97, 97 with
  \<open>DEVIATION = 2\<close>, from the initial state. Every pass compares with the measurement
  of the pass before; the reports show the count 0, 0, 1, 1, 1, so the only increment is
  at the first 97. The run ends with count 1 and status \<open>Running\<close>; one pass of
  \<open>SimpleDecrease.run\<close> then gives count 0 and status \<open>Stopped\<close>.
\<close>

theorem end_to_end_scenario:
  "DEVIATION = 2 \<and>
   mainLoop_run BasicEscalator_init [Some 100, Some 100, Some 97, Some 97, Some 97] =
     ([(0, Some 100, 0, STOPPED), (100, Some 100, 0, STOPPED), (100, Some 97, 1, RUNNING),
       (97, Some 97, 1, RUNNING), (97, Some 97, 1, RUNNING)],
      Inr \<lparr>status_attr = None, onEscalator = 1, lastMeasurement = 97\<rparr>) \<and>
   escalatorCount \<lparr>status_attr = None, onEscalator = 1, lastMeasurement = 97\<rparr> = 1 \<and>
   status \<lparr>status_attr = None, onEscalator = 1, lastMeasurement = 97\<rparr> = RUNNING \<and>
   escalatorCount (SimpleDecrease_run_iteration
     \<lparr>status_attr = None, onEscalator = 1, lastMeasurement = 97\<rparr>) = 0 \<and>
   status (SimpleDecrease_run_iteration
     \<lparr>status_attr = None, onEscalator = 1, lastMeasurement = 97\<rparr>) = STOPPED"
proof -
  have f: "float_sub 0 100 = Num (- 100)" "float_sub 100 97 = Num 3"
    by (simp_all add: float_eval)
  show ?thesis
    by (simp add: mainLoop_iteration_def compareAndIncrease_def setLastMeasurement_def
        print_report_def BasicEscalator_init_def DEVIATION_def status_def escalatorCount_def
        SimpleDecrease_run_iteration_def decreaseCount_def f float_sub_self)
qed

section \<open>Properties of ThreadedLoop\<close>

lemma speed_of_sound_halved: "to_float64 (SPEEDOFSOUND / 2) = Num 17150"
  by (simp add: SPEEDOFSOUND_def float_eval)

text \<open>
  C5: for every pulse duration the computed distance is \<open>(SPEEDOFSOUND / 2) *
  pulseDuration\<close> rounded to 2 decimal places, in the program's float arithmetic.
  \<open>SPEEDOFSOUND / 2\<close> is the float 17150. For a finite duration \<open>d\<close> whose float product
  \<open>p\<close> with 17150 is finite, the distance is the double nearest to the two-decimal
  number \<open>k / 100\<close> nearest to \<open>p\<close> (ties to the even \<open>k\<close>), which is within 0.005 of
  \<open>p\<close>; no exception is raised. A product that overflows, and an infinite or NaN
  duration, are returned unrounded. Each \<open>fl64\<close> is within half a unit in the last
  place of its argument.
\<close>

theorem calculateDistance_rounds_to_two_decimals:
  "to_float64 (SPEEDOFSOUND / 2) = Num 17150 \<and>
   (float_mul (Num 17150) (Num d) = Num p \<longrightarrow>
      p = fl64 (17150 * d) \<and>
      calculateDistance (Some (Num d)) =
        Inr (Num (fl64 (of_int (round_half_even (100 * p)) / 100))) \<and>
      \<bar>of_int (round_half_even (100 * p)) / 100 - p\<bar> \<le> 1 / 200) \<and>
   (float_mul (Num 17150) (Num d) = PosInf \<longrightarrow> calculateDistance (Some (Num d)) = Inr PosInf) \<and>
   (float_mul (Num 17150) (Num d) = NegInf \<longrightarrow> calculateDistance (Some (Num d)) = Inr NegInf) \<and>
   float_mul (Num 17150) (Num d) \<noteq> NaN \<and>
   calculateDistance (Some PosInf) = Inr PosInf \<and>
   calculateDistance (Some NegInf) = Inr NegInf \<and>
   calculateDistance (Some NaN) = Inr NaN \<and>
   \<bar>fl64 x - x\<bar> \<le> ulp x / 2"
proof -
  note k = speed_of_sound_halved
  have cd: "calculateDistance (Some v) = py_round2 (float_mul (Num 17150) v)" for v
    by (simp add: calculateDistance_def k)
  have fin: "p = fl64 (17150 * d) \<and>
      calculateDistance (Some (Num d)) =
        Inr (Num (fl64 (of_int (round_half_even (100 * p)) / 100))) \<and>
      \<bar>of_int (round_half_even (100 * p)) / 100 - p\<bar> \<le> 1 / 200"
    if h: "float_mul (Num 17150) (Num d) = Num p"
  proof -
    from h have "to_float64 (17150 * d) = Num p" by simp
    from to_float64_Num [OF this] have p: "p = fl64 (17150 * d)" and b: "\<bar>p\<bar> < 2 ^ 1024"
      by blast+
    from b have "\<bar>p\<bar> \<le> 2 ^ 1024 - 2 ^ 971" unfolding p by (rule fl64_below_overflow)
    from py_round2_finite [OF this] h p show ?thesis by (simp add: cd)
  qed
  have "float_mul (Num 17150) (Num d) \<noteq> NaN"
    by (simp add: to_float64_def Let_def)
  moreover have "float_mul (Num 17150) (Num d) = PosInf \<longrightarrow>
      calculateDistance (Some (Num d)) = Inr PosInf"
    and "float_mul (Num 17150) (Num d) = NegInf \<longrightarrow>
      calculateDistance (Some (Num d)) = Inr NegInf"
    by (simp_all add: cd)
  moreover have "calculateDistance (Some PosInf) = Inr PosInf"
    "calculateDistance (Some NegInf) = Inr NegInf" "calculateDistance (Some NaN) = Inr NaN"
    by (simp_all add: cd)
  ultimately show ?thesis using k fin fl64_error [of x] by blast
qed

theorem calculateDistance_rounds_to_two_decimals_witness:
  "float_mul (Num 17150) (Num 3) = Num 51450 \<and>
   calculateDistance (Some (Num 3)) = Inr (Num 51450) \<and>
   float_mul (Num 17150) (Num (1 / 16)) = Num (8575 / 8) \<and>
   calculateDistance (Some (Num (1 / 16))) = Inr (Num (1178544523580539 / 1099511627776)) \<and>
   float_mul (Num 17150) (Num (2 ^ 1020)) = PosInf \<and>
   calculateDistance (Some (Num (2 ^ 1020))) = Inr PosInf \<and>
   float_mul (Num 17150) (Num (- (2 ^ 1020))) = NegInf \<and>
   calculateDistance (Some (Num (- (2 ^ 1020)))) = Inr NegInf"
proof -
  have a: "float_mul (Num 17150) (Num 3) = Num 51450"
    and b: "float_mul (Num 17150) (Num (1 / 16)) = Num (8575 / 8)"
    by (simp_all add: float_eval)
  have ra: "fl64 (of_int (round_half_even (100 * 51450)) / 100) = 51450"
    and rb: "fl64 (of_int (round_half_even (100 * (8575 / 8))) / 100) =
      1178544523580539 / 1099511627776"
    by (simp_all add: float_eval)
  have c: "float_mul (Num 17150) (Num (2 ^ 1020)) = PosInf"
    and d: "float_mul (Num 17150) (Num (- (2 ^ 1020))) = NegInf"
    by (simp_all add: to_float64_overflow)
  from calculateDistance_rounds_to_two_decimals [of 3 51450] a
  have "calculateDistance (Some (Num 3)) =
      Inr (Num (fl64 (of_int (round_half_even (100 * 51450)) / 100)))" by blast
  then have a': "calculateDistance (Some (Num 3)) = Inr (Num 51450)" by (simp only: ra)
  from calculateDistance_rounds_to_two_decimals [of "1 / 16" "8575 / 8"] b
  have "calculateDistance (Some (Num (1 / 16))) =
      Inr (Num (fl64 (of_int (round_half_even (100 * (8575 / 8))) / 100)))" by blast
  then have b': "calculateDistance (Some (Num (1 / 16))) =
      Inr (Num (1178544523580539 / 1099511627776))" by (simp only: rb)
  from calculateDistance_rounds_to_two_decimals [of "2 ^ 1020"] c
  have c': "calculateDistance (Some (Num (2 ^ 1020))) = Inr PosInf" by blast
  from calculateDistance_rounds_to_two_decimals [of "- (2 ^ 1020)"] d
  have d': "calculateDistance (Some (Num (- (2 ^ 1020)))) = Inr NegInf" by blast
  from a a' b b' c c' d d' show ?thesis by blast
qed

text \<open>
  The rounding is of the float product, not of the exact one. For the double nearest to
  \<open>0.125 / 17150\<close> the exact product is above \<open>0.125\<close> and would round to 0.13; the float
  product is exactly \<open>0.125\<close>, a tie, and the distance is the double nearest to 0.12.
\<close>

lemma calculateDistance_tie_example:
  "fl64 (1 / 137200) = 8604895194733319 / 1180591620717411303424 \<and>
   1 / 8 < 17150 * (8604895194733319 / 1180591620717411303424 :: real) \<and>
   float_mul (Num 17150) (Num (8604895194733319 / 1180591620717411303424)) = Num (1 / 8) \<and>
   calculateDistance (Some (Num (8604895194733319 / 1180591620717411303424))) =
     Inr (Num (1080863910568919 / 9007199254740992)) \<and>
   fl64 (12 / 100) = 1080863910568919 / 9007199254740992"
proof -
  have a: "fl64 (1 / 137200) = 8604895194733319 / 1180591620717411303424"
    and b: "fl64 (12 / 100) = 1080863910568919 / 9007199254740992"
    by (simp_all add: float_eval)
  have c: "float_mul (Num 17150) (Num (8604895194733319 / 1180591620717411303424)) =
      Num (1 / 8)"
    by (simp add: float_eval)
  have d: "py_round2 (Num (1 / 8)) = Inr (Num (1080863910568919 / 9007199254740992))"
    by (simp add: float_eval)
  have cd: "calculateDistance (Some v) = py_round2 (float_mul (Num 17150) v)" for v
    by (simp add: calculateDistance_def speed_of_sound_halved)
  have e: "calculateDistance (Some (Num (8604895194733319 / 1180591620717411303424))) =
      Inr (Num (1080863910568919 / 9007199254740992))"
    by (simp only: cd c d)
  have f: "1 / 8 < 17150 * (8604895194733319 / 1180591620717411303424 :: real)" by simp
  from a b c e f show ?thesis by blast
qed







lemma run_iteration_pulse_example:
  "ThreadedLoop_run_iteration echo_pulse tick_clock (0, None, None) =
     Some (Inr ((6, Some 1, Some 4), Num 51450))"
  by (simp add: ThreadedLoop_run_iteration_def wait_echo_rise.simps wait_echo_fall.simps
      echo_pulse_def tick_clock_def calculate_pulse_duration_def calculateDistance_def
      SPEEDOFSOUND_def float_eval)

lemma run_iteration_unbound_example:
  "ThreadedLoop_run_iteration echo_already_high tick_clock (0, None, None) =
     Some (Inl UnboundLocalError)"
  by (simp add: ThreadedLoop_run_iteration_def wait_echo_rise.simps wait_echo_fall.simps
      echo_already_high_def tick_clock_def)




end
